theory Spec2Isabelle
  imports Complex_Main "HOL-Library.Word"
begin

section \<open>JavaScript values and string operations\<close>

text \<open>
  The values the service inspects at run time: the fields of a thrown error, the text of
  a response, the value \<open>JSON.parse\<close> returns. Numbers are the finite rational ones
  (no NaN, no infinities). Strings are byte strings: a character outside ASCII is its
  UTF-8 sequence.
\<close>

datatype jsval =
    Undefined
  | Null
  | Bool bool
  | Num rat
  | Str string
  | Arr "jsval list"
  | Obj "(string \<times> jsval) list"

text \<open>Truthiness, as \<open>||\<close>, \<open>!\<close> and \<open>if\<close> test it.\<close>

fun truthy :: "jsval \<Rightarrow> bool" where
  "truthy Undefined = False"
| "truthy Null = False"
| "truthy (Bool b) = b"
| "truthy (Num n) = (n \<noteq> 0)"
| "truthy (Str s) = (s \<noteq> [])"
| "truthy (Arr xs) = True"
| "truthy (Obj fs) = True"

text \<open>\<open>a || b\<close>: the left operand when it is truthy, otherwise the right one.\<close>

definition js_or :: "jsval \<Rightarrow> jsval \<Rightarrow> jsval" where
  "js_or a b = (if truthy a then a else b)"

text \<open>\<open>String.prototype.startsWith\<close>, \<open>endsWith\<close> and \<open>includes\<close>.\<close>

definition startsWith :: "string \<Rightarrow> string \<Rightarrow> bool" where
  "startsWith s p = (take (length p) s = p)"

definition endsWith :: "string \<Rightarrow> string \<Rightarrow> bool" where
  "endsWith s p = (length p \<le> length s \<and> drop (length s - length p) s = p)"

fun includes_str :: "string \<Rightarrow> string \<Rightarrow> bool" where
  "includes_str [] p = (p = [])"
| "includes_str (c # s) p = (startsWith (c # s) p \<or> includes_str s p)"

text \<open>Reading a property of a parsed JSON value; \<open>None\<close> when the property is absent.\<close>

fun get_field :: "jsval \<Rightarrow> string \<Rightarrow> jsval option" where
  "get_field (Obj fs) k = map_of fs k"
| "get_field v k = None"

section \<open>The report requester (services/geminiService.ts)\<close>

subsection \<open>Errors and their classification\<close>

text \<open>
  A value caught by the \<open>catch\<close> clause of \<open>analyzeAsset\<close>, seen through the reads the
  clause performs on it: \<open>error.status\<close>, \<open>error.code\<close>, \<open>error.error\<close> (with its
  \<open>code\<close>, \<open>status\<close> and \<open>message\<close>; \<open>None\<close> when \<open>error.error\<close> is null or
  undefined), \<open>error.message\<close>, and the value of \<open>JSON.stringify(error)\<close>. The
  thrown value is not \<open>null\<close> or \<open>undefined\<close> itself, and serialising it returns a
  value: a property read or a serialisation that throws inside the \<open>catch\<close> clause is
  outside this record.
\<close>

record ApiErrorBody =
  body_code :: jsval
  body_status :: jsval
  body_message :: jsval

record Thrown =
  status :: jsval
  code :: jsval
  nested :: "ApiErrorBody option"
  message :: jsval
  stringified :: jsval

text \<open>\<open>new Error(msg)\<close>: only the message is set; it serialises to an empty object.\<close>

definition new_Error :: "string \<Rightarrow> Thrown" where
  "new_Error msg =
     \<lparr>status = Undefined, code = Undefined, nested = None,
      message = Str msg, stringified = Str ''{}''\<rparr>"

text \<open>\<open>error?.error?.code\<close>, \<open>error?.error?.status\<close>, \<open>error?.error?.message\<close>.\<close>

definition nested_code :: "Thrown \<Rightarrow> jsval" where
  "nested_code e = (case nested e of None \<Rightarrow> Undefined | Some b \<Rightarrow> body_code b)"

definition nested_status :: "Thrown \<Rightarrow> jsval" where
  "nested_status e = (case nested e of None \<Rightarrow> Undefined | Some b \<Rightarrow> body_status b)"

definition nested_message :: "Thrown \<Rightarrow> jsval" where
  "nested_message e = (case nested e of None \<Rightarrow> Undefined | Some b \<Rightarrow> body_message b)"

text \<open>
  \<open>const errorCode = error.status || error.code || error?.error?.code || error?.error?.status;\<close>
\<close>

definition errorCode :: "Thrown \<Rightarrow> jsval" where
  "errorCode e =
     js_or (js_or (js_or (status e) (code e)) (nested_code e)) (nested_status e)"

text \<open>
  \<open>const errorMessage = error.message || error?.error?.message || JSON.stringify(error);\<close>
\<close>

definition errorMessage :: "Thrown \<Rightarrow> jsval" where
  "errorMessage e = js_or (js_or (message e) (nested_message e)) (stringified e)"

text \<open>
  \<open>typeof errorMessage === 'string' && (errorMessage.includes('429') ||
  errorMessage.includes('quota') || errorMessage.includes('RESOURCE_EXHAUSTED'))\<close>
\<close>

fun message_hints_rate_limit :: "jsval \<Rightarrow> bool" where
  "message_hints_rate_limit (Str m) =
     (includes_str m ''429'' \<or> includes_str m ''quota'' \<or> includes_str m ''RESOURCE_EXHAUSTED'')"
| "message_hints_rate_limit v = False"

definition isRateLimit :: "Thrown \<Rightarrow> bool" where
  "isRateLimit e =
     (errorCode e = Num 429 \<or> errorCode e = Str ''RESOURCE_EXHAUSTED'' \<or>
      message_hints_rate_limit (errorMessage e))"

text \<open>
  The classification as the specification words it: the error's status or code equals
  429 or "RESOURCE_EXHAUSTED", or the error's message text contains one of the three
  markers.
\<close>

definition spec_rate_limited :: "Thrown \<Rightarrow> bool" where
  "spec_rate_limited e =
     (status e = Num 429 \<or> status e = Str ''RESOURCE_EXHAUSTED'' \<or>
      code e = Num 429 \<or> code e = Str ''RESOURCE_EXHAUSTED'' \<or>
      message_hints_rate_limit (message e))"

subsection \<open>One attempt\<close>

text \<open>
  What one call of \<open>ai.models.generateContent\<close> does: it rejects with a thrown value, or
  it resolves with a response. Of a response the service reads \<open>response.text\<close> and
  passes it to \<open>JSON.parse\<close>; \<open>parsed\<close> is what \<open>JSON.parse\<close> does on that text,
  returning a value or throwing a SyntaxError.
\<close>

record Response =
  text_of :: jsval
  parsed :: "Thrown + jsval"

datatype Reply = Rejects Thrown | Resolves Response

text \<open>
  The body of the \<open>try\<close> block: the awaited call, the check of the text, the parse.
  \<open>Inl\<close> is the value that reaches the \<open>catch\<close> clause.
\<close>

fun attempt :: "Reply \<Rightarrow> Thrown + jsval" where
  "attempt (Rejects e) = Inl e"
| "attempt (Resolves r) =
     (if \<not> truthy (text_of r) then Inl (new_Error ''No response from AI'')
      else parsed r)"

subsection \<open>The retry loop\<close>

definition maxAttempts :: nat where
  "maxAttempts = 5"

definition initial_delay :: nat where
  "initial_delay = 4000"

text \<open>
  What a run of the loop leaves behind: the report returned or the error re-thrown, the
  number of calls made, and the arguments of the \<open>sleep\<close> calls in order.
\<close>

record Run =
  outcome :: "Thrown + jsval"
  calls :: nat
  sleeps :: "nat list"

text \<open>
  The \<open>while (true)\<close> loop. \<open>api k\<close> is the reply to the call number \<open>k\<close> (from 0);
  \<open>attempts\<close> is the counter before the call, which the \<open>catch\<close> clause increments, so
  the call in progress is call number \<open>attempts\<close>.
\<close>

function retry_loop :: "(nat \<Rightarrow> Reply) \<Rightarrow> nat \<Rightarrow> nat \<Rightarrow> nat list \<Rightarrow> Run" where
  "retry_loop api attempts delay slept =
     (case attempt (api attempts) of
        Inr report \<Rightarrow> \<lparr>outcome = Inr report, calls = attempts + 1, sleeps = slept\<rparr>
      | Inl error \<Rightarrow>
          (if isRateLimit error \<and> attempts + 1 < maxAttempts
           then retry_loop api (attempts + 1) (delay * 2) (slept @ [delay])
           else \<lparr>outcome = Inl error, calls = attempts + 1, sleeps = slept\<rparr>))"
  by pat_completeness auto
termination
  by (relation "measure (\<lambda>(api, attempts, delay, slept). maxAttempts - attempts)") auto

definition requester :: "(nat \<Rightarrow> Reply) \<Rightarrow> Run" where
  "requester api = retry_loop api 0 initial_delay []"


section \<open>The input normalizer (services/geminiService.ts)\<close>

subsection \<open>Files and the FileReader\<close>

text \<open>
  A \<open>File\<close> as the service sees it: \<open>input.name\<close>, \<open>input.type\<close>, \<open>input.size\<close>, and
  what a FileReader gets when it reads the file: the bytes, or the event given to
  \<open>onerror\<close> when the read fails.
\<close>

record File =
  name :: string
  type :: string
  size_bytes :: nat
  content :: "Thrown + 8 word list"

text \<open>The reads a computation asked of a FileReader, in order.\<close>

datatype ReadOp = ReadAsText | ReadAsDataURL

text \<open>The base64 alphabet of RFC 4648 and the encoding of a byte sequence, with padding.\<close>

definition b64_alphabet :: string where
  "b64_alphabet = ''ABCDEFGHIJKLMNOPQRSTUVWXYZabcdefghijklmnopqrstuvwxyz0123456789+/''"

definition b64_digit :: "nat \<Rightarrow> char" where
  "b64_digit k = b64_alphabet ! (k mod 64)"

fun base64 :: "8 word list \<Rightarrow> string" where
  "base64 [] = []"
| "base64 [a] =
     (let n = unat a
      in [b64_digit (n div 4), b64_digit (n mod 4 * 16), CHR ''='', CHR ''=''])"
| "base64 [a, b] =
     (let n = unat a * 256 + unat b
      in [b64_digit (n div 1024), b64_digit (n div 16), b64_digit (n mod 16 * 4), CHR ''=''])"
| "base64 (a # b # c # rest) =
     (let n = unat a * 65536 + unat b * 256 + unat c
      in [b64_digit (n div 262144), b64_digit (n div 4096), b64_digit (n div 64), b64_digit n]
         @ base64 rest)"

text \<open>
  \<open>reader.readAsDataURL(file)\<close>: the data URL of the bytes, with the file's type as the
  media type (\<open>application/octet-stream\<close> when the type is empty).
\<close>

definition readAsDataURL :: "string \<Rightarrow> 8 word list \<Rightarrow> string" where
  "readAsDataURL mime bytes =
     ''data:'' @ (if mime = [] then ''application/octet-stream'' else mime) @
     '';base64,'' @ base64 bytes"

text \<open>
  \<open>reader.readAsText(file)\<close>: the bytes decoded as UTF-8; a string of the model is its
  UTF-8 bytes, so the decoding keeps every byte.
\<close>

definition readAsText :: "8 word list \<Rightarrow> string" where
  "readAsText bytes = map (\<lambda>b. char_of (unat b)) bytes"

text \<open>\<open>s.split(',')\<close> for a one-character separator, and \<open>xs[i]\<close> on the pieces.\<close>

fun split :: "char \<Rightarrow> string \<Rightarrow> string list" where
  "split sep [] = [[]]"
| "split sep (c # s) =
     (if c = sep then [] # split sep s
      else (case split sep s of
              [] \<Rightarrow> [[c]]
            | w # ws \<Rightarrow> (c # w) # ws))"

definition index :: "string list \<Rightarrow> nat \<Rightarrow> jsval" where
  "index xs i = (if i < length xs then Str (xs ! i) else Undefined)"

text \<open>
  \<open>fileToBase64\<close>: \<open>result.split(',')[1]\<close> of the data URL, or the rejection with the
  error event. \<open>fileToText\<close>: the text, or the rejection.
\<close>

definition fileToBase64 :: "File \<Rightarrow> Thrown + jsval" where
  "fileToBase64 file =
     (case content file of
        Inl event \<Rightarrow> Inl event
      | Inr bytes \<Rightarrow> Inr (index (split (CHR '','') (readAsDataURL (type file) bytes)) 1))"

definition fileToText :: "File \<Rightarrow> Thrown + string" where
  "fileToText file =
     (case content file of
        Inl event \<Rightarrow> Inl event
      | Inr bytes \<Rightarrow> Inr (readAsText bytes))"

subsection \<open>Classification and payload\<close>

definition isSupportedMimeType :: "string \<Rightarrow> bool" where
  "isSupportedMimeType mime =
     (mime = ''application/pdf'' \<or> startsWith mime ''image/'' \<or> startsWith mime ''video/'')"

text \<open>The condition of the first branch of the file case of \<open>analyzeAsset\<close>.\<close>

definition isTextLike :: "File \<Rightarrow> bool" where
  "isTextLike input =
     (startsWith (type input) ''text/'' \<or> endsWith (name input) ''.txt'' \<or>
      endsWith (name input) ''.md'' \<or> endsWith (name input) ''.csv'' \<or>
      endsWith (name input) ''.json'')"

text \<open>
  A number in a template literal: the decimal digits of a natural number. (A file size is
  far below the 10^21 from which JavaScript prints a number with an exponent.)
\<close>

definition digit_char :: "nat \<Rightarrow> char" where
  "digit_char d = ''0123456789'' ! (d mod 10)"

function string_of_nat :: "nat \<Rightarrow> string" where
  "string_of_nat n =
     (if n < 10 then [digit_char n] else string_of_nat (n div 10) @ [digit_char (n mod 10)])"
  by pat_completeness auto
termination
  by (relation "measure (\<lambda>n. n)") auto

text \<open>
  The number a string of decimal digits denotes, to say what \<open>string_of_nat\<close> prints.
\<close>

definition digit_value :: "char \<Rightarrow> nat" where
  "digit_value c = of_char c - 48"

definition decimal_value :: "string \<Rightarrow> nat" where
  "decimal_value s = foldl (\<lambda>a c. 10 * a + digit_value c) 0 s"

text \<open>The parts of a request: \<open>{ text }\<close> or \<open>{ inlineData: { mimeType, data } }\<close>.\<close>

datatype Part = Text string | InlineData string jsval

datatype Asset = Url string | FileAsset File

abbreviation NL :: char where
  "NL \<equiv> CHR 0x0A"

definition url_prompt :: "string \<Rightarrow> string" where
  "url_prompt input =
     ''Analyze this URL for piracy and authenticity risks: '' @ input @
     ''. '' @ [NL] @ ''Generate a forensic report.''"

definition text_prompt :: "string \<Rightarrow> string" where
  "text_prompt textContent =
     ''Analyze this text content for plagiarism and piracy risks:'' @ [NL, NL] @ textContent"

definition binary_prompt :: "string \<Rightarrow> string" where
  "binary_prompt mime =
     ''Analyze this '' @ mime @
     '' asset and generate a forensic piracy report based on simulated reverse search and metadata analysis.''"

definition metadata_prompt :: "File \<Rightarrow> string" where
  "metadata_prompt input =
     ''Perform a simulated forensic analysis on this file.'' @ [NL, NL] @
     ''File Name: '' @ name input @ [NL] @
     ''File Size: '' @ string_of_nat (size_bytes input) @ '' bytes'' @ [NL] @
     ''File Type: '' @ type input @ [NL, NL] @
     ''Since direct content analysis is not available for this file type via the current interface, simulate findings based on the metadata and common piracy patterns associated with this file format.''"

text \<open>
  The first half of \<open>analyzeAsset\<close>: the parts built for an input, with the reads asked
  of the FileReader on the way. \<open>Inl\<close> is a rejected read.
\<close>

fun normalize :: "Asset \<Rightarrow> ReadOp list \<times> (Thrown + Part list)" where
  "normalize (Url input) = ([], Inr [Text (url_prompt input)])"
| "normalize (FileAsset input) =
     (if isTextLike input then
        ([ReadAsText],
         case fileToText input of
           Inl event \<Rightarrow> Inl event
         | Inr textContent \<Rightarrow> Inr [Text (text_prompt textContent)])
      else if isSupportedMimeType (type input) then
        ([ReadAsDataURL],
         case fileToBase64 input of
           Inl event \<Rightarrow> Inl event
         | Inr base64Data \<Rightarrow>
             Inr [InlineData (type input) base64Data, Text (binary_prompt (type input))])
      else ([], Inr [Text (metadata_prompt input)]))"

subsection \<open>The whole of \<open>analyzeAsset\<close>\<close>

text \<open>
  \<open>apiKey\<close> is \<open>process.env.API_KEY\<close>; \<open>api parts k\<close> is the reply of the remote model
  to the call number \<open>k\<close> made with the contents \<open>parts\<close>. The result is the reads made
  of the file and the run of the requester; with no key, or after a rejected read, no
  call is made.
\<close>

definition analyzeAsset ::
  "jsval \<Rightarrow> (Part list \<Rightarrow> nat \<Rightarrow> Reply) \<Rightarrow> Asset \<Rightarrow> ReadOp list \<times> Run" where
  "analyzeAsset apiKey api input =
     (if \<not> truthy apiKey
      then ([], \<lparr>outcome = Inl (new_Error ''API_KEY is missing from environment variables''),
                 calls = 0, sleeps = []\<rparr>)
      else (case normalize input of
              (reads, Inl event) \<Rightarrow> (reads, \<lparr>outcome = Inl event, calls = 0, sleeps = []\<rparr>)
            | (reads, Inr parts) \<Rightarrow> (reads, requester (api parts))))"

text \<open>
  A remote model that answers from a finite script, in order, whatever the contents;
  every later call gets the reply \<open>d\<close>.
\<close>

definition scripted :: "Reply list \<Rightarrow> Reply \<Rightarrow> Part list \<Rightarrow> nat \<Rightarrow> Reply" where
  "scripted rs d parts k = (if k < length rs then rs ! k else d)"

text \<open>A string between double quotes, as it stands in a JSON text.\<close>

definition quoted :: "string \<Rightarrow> string" where
  "quoted s = CHR 0x22 # s @ [CHR 0x22]"

subsection \<open>The response schema\<close>

text \<open>
  Of \<open>reportSchema\<close>, which goes to the remote model with every call: the names under
  \<open>required\<close>, and the names of the properties of array type, none of them required.
\<close>

definition reportSchema_required :: "string list" where
  "reportSchema_required =
     [''case_id'', ''verdict'', ''confidence_score'', ''summary'', ''risk_level'']"

definition reportSchema_arrays :: "string list" where
  "reportSchema_arrays =
     [''key_evidence'', ''suspicious_urls'', ''probable_original_sources'', ''data_gaps'',
      ''recommended_actions'', ''engine_scores'']"

text \<open>
  The reads of \<open>ReportView\<close> that have no guard: \<open>report.key_evidence.map\<close>,
  \<open>report.suspicious_urls.length\<close> and \<open>report.recommended_actions.map\<close>. Each throws a
  TypeError when the field is absent from the report, since it reads a property of
  \<open>undefined\<close>.
\<close>

definition ReportView_unguarded :: "string list" where
  "ReportView_unguarded = [''key_evidence'', ''suspicious_urls'', ''recommended_actions'']"

definition ReportView_reads_absent_field :: "jsval \<Rightarrow> bool" where
  "ReportView_reads_absent_field r = list_ex (\<lambda>k. get_field r k = None) ReportView_unguarded"

text \<open>
  A response that has the five required fields and nothing else: its text, and the value
  \<open>JSON.parse\<close> returns for it.
\<close>

definition minimal_report_text :: string where
  "minimal_report_text =
     ''{'' @ quoted ''case_id'' @ '':'' @ quoted ''DX-1'' @ '','' @
     quoted ''verdict'' @ '':'' @ quoted ''LIKELY ORIGINAL / AUTHENTIC'' @ '','' @
     quoted ''confidence_score'' @ '':90,'' @
     quoted ''summary'' @ '':'' @ quoted ''No match found.'' @ '','' @
     quoted ''risk_level'' @ '':'' @ quoted ''LOW'' @ ''}''"

definition minimal_report :: jsval where
  "minimal_report =
     Obj [(''case_id'', Str ''DX-1''),
          (''verdict'', Str ''LIKELY ORIGINAL / AUTHENTIC''),
          (''confidence_score'', Num 90),
          (''summary'', Str ''No match found.''),
          (''risk_level'', Str ''LOW'')]"

section \<open>The application state controller (App.tsx)\<close>

datatype AppState = IDLE | SCANNING | REPORT_READY | ERROR

datatype InputMode = FileMode | UrlMode

text \<open>
  The state hooks of the \<open>App\<close> component. \<open>None\<close> is \<open>null\<close> for the file and the
  error; the report slot holds a JavaScript value, \<open>Null\<close> at first, and later whatever
  \<open>analyzeAsset\<close> resolved with: the value of \<open>JSON.parse\<close>, which the cast to
  \<open>ForensicReport\<close> does not check.
\<close>

record App =
  appState :: AppState
  inputMode :: InputMode
  "file" :: "File option"
  urlInput :: string
  report :: jsval
  error :: "string option"

definition initial_App :: App where
  "initial_App =
     \<lparr>appState = IDLE, inputMode = FileMode, file = None, urlInput = [],
      report = Null, error = None\<rparr>"

definition max_file_size :: nat where
  "max_file_size = 50 * 1024 * 1024"

text \<open>
  \<open>handleFileChange\<close>, given \<open>e.target.files\<close> (empty when null): the message of the
  \<open>alert\<close>, if one is shown, and the next state.
\<close>

fun handleFileChange :: "File list \<Rightarrow> App \<Rightarrow> string option \<times> App" where
  "handleFileChange [] s = (None, s)"
| "handleFileChange (f # fs) s =
     (if size_bytes f > max_file_size
      then (Some ''File too large. Please upload a file smaller than 50MB.'', s)
      else (None, s\<lparr>file := Some f\<rparr>))"

text \<open>
  \<open>startScan\<close> up to its \<open>await\<close>: the asset chosen by the input mode, nothing when it
  is falsy (no file, or an empty URL); otherwise the state moves to scanning, the error
  is cleared, and the asset goes to \<open>analyzeAsset\<close>.
\<close>

definition chosen_asset :: "App \<Rightarrow> Asset option" where
  "chosen_asset s =
     (if inputMode s = UrlMode
      then (if urlInput s = [] then None else Some (Url (urlInput s)))
      else map_option FileAsset (file s))"

definition startScan :: "App \<Rightarrow> Asset option \<times> App" where
  "startScan s =
     (case chosen_asset s of
        None \<Rightarrow> (None, s)
      | Some asset \<Rightarrow> (Some asset, s\<lparr>appState := SCANNING, error := None\<rparr>))"

text \<open>
  \<open>startScan\<close> after its \<open>await\<close>: \<open>setReport(data)\<close> when \<open>analyzeAsset\<close> resolved,
  the \<open>catch\<close> clause when it rejected.
\<close>

fun scan_settled :: "Thrown + jsval \<Rightarrow> App \<Rightarrow> App" where
  "scan_settled (Inr data) s = s\<lparr>report := data\<rparr>"
| "scan_settled (Inl err) s =
     s\<lparr>error := Some ''Failed to generate report. Please try again.'', appState := ERROR\<rparr>"

text \<open>
  \<open>onScanComplete\<close> is a closure made by a render of \<open>App\<close>: the \<open>report\<close> that
  \<open>if (report)\<close> tests is the one of that render, \<open>captured\<close> here, and the test is
  JavaScript truthiness. \<open>setAppState\<close> acts on the state at the time of the call.
\<close>

definition onScanComplete :: "jsval \<Rightarrow> App \<Rightarrow> App" where
  "onScanComplete captured s = (if truthy captured then s\<lparr>appState := REPORT_READY\<rparr> else s)"

definition resetApp :: "App \<Rightarrow> App" where
  "resetApp s =
     s\<lparr>appState := IDLE, file := None, urlInput := [], report := Null, error := None\<rparr>"

text \<open>The click handler of a navigation button, and the change handler of the URL field.\<close>

definition navButton :: "InputMode \<Rightarrow> App \<Rightarrow> App" where
  "navButton mode s = s\<lparr>inputMode := mode, file := None, urlInput := []\<rparr>"

definition urlChange :: "string \<Rightarrow> App \<Rightarrow> App" where
  "urlChange v s = s\<lparr>urlInput := v\<rparr>"

subsection \<open>The controller, its requests and the scan animation\<close>

text \<open>
  The component together with what surrounds it: every asset handed to \<open>analyzeAsset\<close>
  so far and the number of those calls not yet settled; \<open>currentStepIndex\<close> of the
  \<open>ScanVisualization\<close>, which is mounted exactly while the state is \<open>SCANNING\<close>; and the
  timers \<open>setTimeout(onComplete, 800)\<close> armed and not yet fired, each with the report
  its callback captured. \<open>steps_length\<close> is \<open>steps.length\<close>, the six entries of \<open>STEPS\<close>.
\<close>

record Sys =
  app :: App
  submitted :: "Asset list"
  pending :: nat
  currentStepIndex :: nat
  timers :: "jsval list"

definition steps_length :: nat where
  "steps_length = 6"

datatype Event =
    FileChange "File list"
  | UrlChange string
  | NavButton InputMode
  | StartScan
  | Settled "Thrown + jsval"
  | StepTimeout
  | CompleteTimeout nat
  | Reset

definition initial_Sys :: Sys where
  "initial_Sys =
     \<lparr>app = initial_App, submitted = [], pending = 0, currentStepIndex = 0, timers = []\<rparr>"

text \<open>
  A parsed object or array is a new object, never the one already in the state; any other
  value is the same as an equal one (\<open>Object.is\<close>).
\<close>

fun is_fresh_object :: "jsval \<Rightarrow> bool" where
  "is_fresh_object (Obj fs) = True"
| "is_fresh_object (Arr xs) = True"
| "is_fresh_object v = False"

text \<open>
  What React does after the state setters of a handler have run, \<open>s\<close> being the new
  state and \<open>fresh\<close> telling that a setter stored a new object; the setters of one
  handler are applied together and give one render. With nothing changed
  there is no render. Otherwise \<open>App\<close> renders with a new \<open>onScanComplete\<close>. Outside
  \<open>SCANNING\<close> the animation is not rendered: it is unmounted and its step index is
  lost; the cleanup of its effect clears the step timer only, so armed completion timers
  stay armed. In \<open>SCANNING\<close> the effect of the animation runs again because
  \<open>onComplete\<close> changed, and once \<open>currentStepIndex >= steps.length\<close> that arms
  one more completion timer, whose callback captured the report of this render.
\<close>

definition after_update :: "Sys \<Rightarrow> App \<Rightarrow> bool \<Rightarrow> Sys" where
  "after_update w s fresh =
     (if s = app w \<and> \<not> fresh then w
      else if appState s \<noteq> SCANNING then w\<lparr>app := s, currentStepIndex := 0\<rparr>
      else if currentStepIndex w \<ge> steps_length
        then w\<lparr>app := s, timers := timers w @ [report s]\<rparr>
      else w\<lparr>app := s\<rparr>)"

text \<open>Whether \<open>handleFileChange\<close> calls \<open>setFile\<close>, with the new \<open>File\<close> object.\<close>

fun stores_file :: "File list \<Rightarrow> bool" where
  "stores_file [] = False"
| "stores_file (f # fs) = (\<not> size_bytes f > max_file_size)"

text \<open>\<open>xs\<close> without its element number \<open>k\<close>.\<close>

definition without :: "'a list \<Rightarrow> nat \<Rightarrow> 'a list" where
  "without xs k = take k xs @ drop (Suc k) xs"

text \<open>
  One event. A settlement needs a call in flight. \<open>StepTimeout\<close> is the timer of the
  running step of the animation: it advances the index, and the effect that follows arms
  a completion timer when the index has reached the end. \<open>CompleteTimeout k\<close> is the
  armed completion timer number \<open>k\<close> firing: its callback runs with the report it
  captured.
\<close>

fun fire :: "Sys \<Rightarrow> Event \<Rightarrow> Sys" where
  "fire w (FileChange files) =
     after_update w (snd (handleFileChange files (app w))) (stores_file files)"
| "fire w (UrlChange v) = after_update w (urlChange v (app w)) False"
| "fire w (NavButton mode) = after_update w (navButton mode (app w)) False"
| "fire w StartScan =
     (case startScan (app w) of
        (None, s) \<Rightarrow> w
      | (Some asset, s) \<Rightarrow>
          (after_update w s False)
            \<lparr>submitted := submitted w @ [asset], pending := pending w + 1\<rparr>)"
| "fire w (Settled result) =
     (if pending w = 0 then w
      else (after_update w (scan_settled result (app w))
              (case result of Inl err \<Rightarrow> False | Inr data \<Rightarrow> is_fresh_object data))
             \<lparr>pending := pending w - 1\<rparr>)"
| "fire w StepTimeout =
     (if appState (app w) = SCANNING \<and> currentStepIndex w < steps_length
      then w\<lparr>currentStepIndex := currentStepIndex w + 1,
              timers := (if currentStepIndex w + 1 \<ge> steps_length
                         then timers w @ [report (app w)] else timers w)\<rparr>
      else w)"
| "fire w (CompleteTimeout k) =
     (if k < length (timers w)
      then after_update (w\<lparr>timers := without (timers w) k\<rparr>)
             (onScanComplete (timers w ! k) (app w)) False
      else w)"
| "fire w Reset = after_update w (resetApp (app w)) False"

definition run :: "Event list \<Rightarrow> Sys" where
  "run events = foldl fire initial_Sys events"

text \<open>
  The invariant of the size check: every file in the file slot, and every file handed to
  \<open>analyzeAsset\<close>, is within the limit.
\<close>

definition within_limit :: "Sys \<Rightarrow> bool" where
  "within_limit w \<longleftrightarrow>
     (\<forall>g. file (app w) = Some g \<longrightarrow> size_bytes g \<le> max_file_size) \<and>
     (\<forall>g. FileAsset g \<in> set (submitted w) \<longrightarrow> size_bytes g \<le> max_file_size)"

text \<open>
  The invariant of the animation: its index is at the end only while scanning, and then a
  truthy report in the slot has a completion timer armed that captured it.
\<close>

definition completion_armed :: "Sys \<Rightarrow> bool" where
  "completion_armed w \<longleftrightarrow>
     (currentStepIndex w \<ge> steps_length \<longrightarrow> appState (app w) = SCANNING) \<and>
     (currentStepIndex w \<ge> steps_length \<and> truthy (report (app w)) \<longrightarrow>
        report (app w) \<in> set (timers w))"

section \<open>Properties of the report requester\<close>

declare retry_loop.simps [simp del]
declare string_of_nat.simps [simp del]

subsection \<open>One turn of the loop\<close>

lemma retry_loop_returns:
  "attempt (call n) = Inr r \<Longrightarrow>
   retry_loop call n d sl = \<lparr>outcome = Inr r, calls = n + 1, sleeps = sl\<rparr>"
  by (subst retry_loop.simps) simp

lemma retry_loop_retries:
  "attempt (call n) = Inl e \<Longrightarrow> isRateLimit e \<Longrightarrow> n + 1 < maxAttempts \<Longrightarrow>
   retry_loop call n d sl = retry_loop call (n + 1) (d * 2) (sl @ [d])"
  by (subst retry_loop.simps) simp

lemma retry_loop_rethrows:
  "attempt (call n) = Inl e \<Longrightarrow> \<not> isRateLimit e \<or> maxAttempts \<le> n + 1 \<Longrightarrow>
   retry_loop call n d sl = \<lparr>outcome = Inl e, calls = n + 1, sleeps = sl\<rparr>"
  by (subst retry_loop.simps) auto

lemma backoff_schedule:
  "map (\<lambda>j. (d::nat) * 2 ^ j) [0..<Suc m] = d # map (\<lambda>j. (d * 2) * 2 ^ j) [0..<m]"
  by (simp add: map_upt_Suc mult.assoc del: upt_Suc)

text \<open>
  A run of \<open>m\<close> rate-limited failures below the attempt limit is slept through: the
  loop arrives at call \<open>n + m\<close> with the delay doubled \<open>m\<close> times.
\<close>

lemma retry_loop_skips:
  "n + m < maxAttempts \<Longrightarrow>
   (\<forall>j<m. \<exists>e. attempt (call (n + j)) = Inl e \<and> isRateLimit e) \<Longrightarrow>
   retry_loop call n d sl =
     retry_loop call (n + m) (d * 2 ^ m) (sl @ map (\<lambda>j. d * 2 ^ j) [0..<m])"
proof (induction m arbitrary: n d sl)
  case 0
  then show ?case by simp
next
  case (Suc m)
  from Suc.prems(2) obtain e where e: "attempt (call n) = Inl e" "isRateLimit e"
    by force
  have later: "\<forall>j<m. \<exists>e. attempt (call (Suc n + j)) = Inl e \<and> isRateLimit e"
  proof (intro allI impI)
    fix j assume "j < m"
    then have "Suc j < Suc m" by simp
    from Suc.prems(2) [rule_format, OF this]
    show "\<exists>e. attempt (call (Suc n + j)) = Inl e \<and> isRateLimit e" by simp
  qed
  have "retry_loop call n d sl = retry_loop call (Suc n) (d * 2) (sl @ [d])"
    using retry_loop_retries [where call = call and n = n, OF e] Suc.prems(1) by simp
  also have "\<dots> = retry_loop call (Suc n + m) ((d * 2) * 2 ^ m)
                     ((sl @ [d]) @ map (\<lambda>j. (d * 2) * 2 ^ j) [0..<m])"
    using Suc.IH [OF _ later] Suc.prems(1) by simp
  finally show ?case
    by (simp only: backoff_schedule) (simp add: mult.assoc)
qed

lemma quota_is_rate_limit: "isRateLimit (new_Error ''You exceeded your current quota'')"
  by (simp add: isRateLimit_def errorMessage_def errorCode_def new_Error_def js_or_def
      nested_code_def nested_status_def nested_message_def startsWith_def)

lemma denied_not_rate_limit: "\<not> isRateLimit (new_Error ''API key not valid'')"
  by (simp add: isRateLimit_def errorMessage_def errorCode_def new_Error_def js_or_def
      nested_code_def nested_status_def nested_message_def startsWith_def)

subsection \<open>Four rate limits, then a report\<close>

text \<open>
  C1. Whatever the contents \<open>parts\<close> of the request: when the first four calls fail with
  errors the loop classifies as rate limits and the fifth call resolves with a non-empty
  text that parses to \<open>r\<close>, the requester makes exactly five calls, sleeps 4000, 8000,
  16000 and 32000 ms between them, and returns \<open>r\<close>.
\<close>

theorem four_rate_limits_then_success:
  assumes fails: "\<forall>k<4. attempt (api parts k) = Inl (e k) \<and> isRateLimit (e k)"
    and fifth: "api parts 4 = Resolves response"
    and nonempty: "truthy (text_of response)"
    and parse: "parsed response = Inr r"
  shows "requester (api parts) =
           \<lparr>outcome = Inr r, calls = 5, sleeps = [4000, 8000, 16000, 32000]\<rparr>"
proof -
  have "\<forall>j<4. \<exists>x. attempt (api parts (0 + j)) = Inl x \<and> isRateLimit x"
    using fails by auto
  then have "retry_loop (api parts) 0 initial_delay [] =
      retry_loop (api parts) (0 + 4) (initial_delay * 2 ^ 4)
        ([] @ map (\<lambda>j. initial_delay * 2 ^ j) [0..<4])"
    by (intro retry_loop_skips) (simp add: maxAttempts_def)
  moreover have "attempt (api parts 4) = Inr r"
    using fifth nonempty parse by simp
  moreover have "map (\<lambda>j. initial_delay * 2 ^ j) [0..<4] = [4000, 8000, 16000, 32000]"
    by (simp add: initial_delay_def upt_conv_Cons)
  ultimately show ?thesis
    by (simp add: requester_def retry_loop_returns)
qed

theorem four_rate_limits_then_success_witness:
  "isRateLimit (new_Error ''You exceeded your current quota'') \<and>
   truthy (Str ''{}'') \<and>
   requester
     (scripted
        [Rejects (new_Error ''You exceeded your current quota''),
         Rejects (new_Error ''You exceeded your current quota''),
         Rejects (new_Error ''You exceeded your current quota''),
         Rejects (new_Error ''You exceeded your current quota''),
         Resolves \<lparr>text_of = Str ''{}'', parsed = Inr (Obj [])\<rparr>]
        (Rejects (new_Error ''API key not valid''))
        [Text ''check''])
   = \<lparr>outcome = Inr (Obj []), calls = 5, sleeps = [4000, 8000, 16000, 32000]\<rparr>"
  using four_rate_limits_then_success
    [of "scripted
        [Rejects (new_Error ''You exceeded your current quota''),
         Rejects (new_Error ''You exceeded your current quota''),
         Rejects (new_Error ''You exceeded your current quota''),
         Rejects (new_Error ''You exceeded your current quota''),
         Resolves \<lparr>text_of = Str ''{}'', parsed = Inr (Obj [])\<rparr>]
        (Rejects (new_Error ''API key not valid''))"
       "[Text ''check'']"
       "\<lambda>k. new_Error ''You exceeded your current quota''"
       "\<lparr>text_of = Str ''{}'', parsed = Inr (Obj [])\<rparr>"
       "Obj []"]
    quota_is_rate_limit
  by (simp add: scripted_def nth_Cons')

subsection \<open>Fatal failures\<close>

text \<open>
  C2. When the calls before call \<open>k\<close> (\<open>k < 5\<close>) fail with rate limits and call \<open>k\<close>
  fails with an error that is not a rate limit, or is the fifth call, the requester stops
  there: it has made \<open>k + 1\<close> calls, has slept only between them, and re-throws the
  error of call \<open>k\<close>; its outcome is that error, never a report. With \<open>k = 0\<close> this is
  a fatal first failure, with \<open>k = 4\<close> five rate limits in a row.
\<close>

theorem fatal_failure_no_retry:
  assumes k: "k < 5"
    and fails: "\<forall>j<k. attempt (call j) = Inl (e j) \<and> isRateLimit (e j)"
    and last: "attempt (call k) = Inl (e k)"
    and fatal: "\<not> isRateLimit (e k) \<or> k = 4"
  shows "requester call =
           \<lparr>outcome = Inl (e k), calls = k + 1, sleeps = map (\<lambda>j. 4000 * 2 ^ j) [0..<k]\<rparr>"
proof -
  have "\<forall>j<k. \<exists>x. attempt (call (0 + j)) = Inl x \<and> isRateLimit x"
    using fails by auto
  then have "retry_loop call 0 initial_delay [] =
      retry_loop call (0 + k) (initial_delay * 2 ^ k)
        ([] @ map (\<lambda>j. initial_delay * 2 ^ j) [0..<k])"
    using k by (intro retry_loop_skips) (simp add: maxAttempts_def)
  moreover have "\<not> isRateLimit (e k) \<or> maxAttempts \<le> k + 1"
    using fatal by (auto simp: maxAttempts_def)
  ultimately show ?thesis
    using retry_loop_rethrows [where call = call and n = k, OF last]
    by (simp add: requester_def initial_delay_def)
qed

theorem fatal_failure_no_retry_witness:
  "\<not> isRateLimit (new_Error ''API key not valid'') \<and>
   requester
     (scripted
        [Rejects (new_Error ''You exceeded your current quota''),
         Rejects (new_Error ''API key not valid'')]
        (Rejects (new_Error ''API key not valid''))
        [Text ''check''])
   = \<lparr>outcome = Inl (new_Error ''API key not valid''), calls = 2, sleeps = [4000]\<rparr>"
  using fatal_failure_no_retry
    [of 1 "scripted
        [Rejects (new_Error ''You exceeded your current quota''),
         Rejects (new_Error ''API key not valid'')]
        (Rejects (new_Error ''API key not valid''))
        [Text ''check'']"
       "\<lambda>k. if k = 0 then new_Error ''You exceeded your current quota''
            else new_Error ''API key not valid''"]
    quota_is_rate_limit denied_not_rate_limit
  by (simp add: scripted_def)

subsection \<open>Classification of errors\<close>

text \<open>
  C3 (as amended). An error is classified as a rate limit exactly when the first truthy
  value among \<open>error.status\<close>, \<open>error.code\<close>, \<open>error.error.code\<close> and
  \<open>error.error.status\<close> (the last one when none is truthy) is the number 429 or the
  string "RESOURCE_EXHAUSTED", or the first truthy value among \<open>error.message\<close>,
  \<open>error.error.message\<close> and \<open>JSON.stringify(error)\<close> (the last one when none is
  truthy) is a string that contains "429", "quota" or "RESOURCE_EXHAUSTED", matched
  case-sensitively. Every other error is fatal.
\<close>

theorem rate_limit_classification:
  "isRateLimit e \<longleftrightarrow>
     (let c = (if truthy (status e) then status e
               else if truthy (code e) then code e
               else if truthy (nested_code e) then nested_code e
               else nested_status e);
          m = (if truthy (message e) then message e
               else if truthy (nested_message e) then nested_message e
               else stringified e)
      in c = Num 429 \<or> c = Str ''RESOURCE_EXHAUSTED'' \<or>
         (\<exists>t. m = Str t \<and>
              (includes_str t ''429'' \<or> includes_str t ''quota'' \<or>
               includes_str t ''RESOURCE_EXHAUSTED'')))"
proof -
  have hint: "message_hints_rate_limit v \<longleftrightarrow>
      (\<exists>t. v = Str t \<and>
           (includes_str t ''429'' \<or> includes_str t ''quota'' \<or>
            includes_str t ''RESOURCE_EXHAUSTED''))" for v
    by (cases v) simp_all
  show ?thesis
    unfolding isRateLimit_def errorCode_def errorMessage_def js_or_def Let_def hint
    by simp
qed

text \<open>
  The error body the remote API sends on a rate limit, nested under \<open>error\<close>: the
  classification finds its code through the chain.
\<close>

theorem rate_limit_classification_witness:
  "isRateLimit
     \<lparr>status = Undefined, code = Undefined,
      nested = Some \<lparr>body_code = Num 429, body_status = Str ''RESOURCE_EXHAUSTED'',
                     body_message = Str ''Resource has been exhausted''\<rparr>,
      message = Undefined,
      stringified = Str (''{'' @ quoted ''error'' @ '':{'' @ quoted ''code'' @ '':429,'' @
        quoted ''message'' @ '':'' @ quoted ''Resource has been exhausted'' @ '','' @
        quoted ''status'' @ '':'' @ quoted ''RESOURCE_EXHAUSTED'' @ ''}}'')\<rparr>"
  using rate_limit_classification
    [of "\<lparr>status = Undefined, code = Undefined,
      nested = Some \<lparr>body_code = Num 429, body_status = Str ''RESOURCE_EXHAUSTED'',
                     body_message = Str ''Resource has been exhausted''\<rparr>,
      message = Undefined,
      stringified = Str (''{'' @ quoted ''error'' @ '':{'' @ quoted ''code'' @ '':429,'' @
        quoted ''message'' @ '':'' @ quoted ''Resource has been exhausted'' @ '','' @
        quoted ''status'' @ '':'' @ quoted ''RESOURCE_EXHAUSTED'' @ ''}}'')\<rparr>"]
  by (simp add: nested_code_def)

text \<open>
  C3 as stated fails. An error with status 500, code 429 and the message
  "Internal error" has a code equal to 429, so the specification's wording makes it a
  rate limit; the chain stops at the truthy status 500 and never reads the code, the
  message has no marker, and the error is fatal.
\<close>

theorem rate_limit_classification_counterexample:
  "spec_rate_limited
     \<lparr>status = Num 500, code = Num 429, nested = None,
      message = Str ''Internal error'',
      stringified = Str (''{'' @ quoted ''status'' @ '':500,'' @ quoted ''code'' @ '':429}'')\<rparr> \<and>
   \<not> isRateLimit
     \<lparr>status = Num 500, code = Num 429, nested = None,
      message = Str ''Internal error'',
      stringified = Str (''{'' @ quoted ''status'' @ '':500,'' @ quoted ''code'' @ '':429}'')\<rparr>"
  by (simp add: spec_rate_limited_def isRateLimit_def errorMessage_def errorCode_def js_or_def
      nested_code_def nested_status_def nested_message_def startsWith_def)

section \<open>Properties of the input normalizer\<close>

subsection \<open>Strings, base64 and data URLs\<close>

lemma startsWith_append: "startsWith (p @ b) p"
  by (simp add: startsWith_def)

lemma includes_str_startsWith: "startsWith s p \<Longrightarrow> includes_str s p"
  by (cases s) (simp_all add: startsWith_def)

lemma includes_str_prefix: "includes_str (p @ b) p"
  by (rule includes_str_startsWith) (rule startsWith_append)

lemma includes_str_middle: "includes_str (a @ p @ b) p"
  by (induction a) (simp_all add: includes_str_prefix)

lemma b64_digit_in_alphabet: "b64_digit k \<in> set b64_alphabet"
proof -
  have "length b64_alphabet = 64" by (simp add: b64_alphabet_def)
  then have "k mod 64 < length b64_alphabet" by simp
  then show ?thesis unfolding b64_digit_def by (rule nth_mem)
qed

lemma b64_digit_not_comma: "b64_digit k \<noteq> CHR '',''"
proof
  assume "b64_digit k = CHR '',''"
  then have "CHR '','' \<in> set b64_alphabet" using b64_digit_in_alphabet [of k] by simp
  then show False by (simp add: b64_alphabet_def)
qed

lemma base64_padding_examples:
  "base64 [77] = ''TQ==''" "base64 [77, 97] = ''TWE=''" "base64 [77, 97, 110] = ''TWFu''"
  by (simp_all add: b64_digit_def b64_alphabet_def)

lemma base64_no_comma: "CHR '','' \<notin> set (base64 bytes)"
  by (induction bytes rule: base64.induct) (simp_all add: Let_def b64_digit_not_comma [symmetric])

lemma split_without_separator: "sep \<notin> set s \<Longrightarrow> split sep s = [s]"
  by (induction s) auto

lemma split_at_first_separator:
  "sep \<notin> set a \<Longrightarrow> split sep (a @ sep # b) = a # split sep b"
  by (induction a) auto

lemma data_url_payload:
  assumes "CHR '','' \<notin> set mime"
  shows "index (split (CHR '','') (readAsDataURL mime bytes)) 1 = Str (base64 bytes)"
proof -
  let ?head = "''data:'' @ (if mime = [] then ''application/octet-stream'' else mime) @ '';base64''"
  have url: "readAsDataURL mime bytes = ?head @ CHR '','' # base64 bytes"
    by (simp add: readAsDataURL_def)
  have "CHR '','' \<notin> set ?head" using assms by simp
  then have "split (CHR '','') (readAsDataURL mime bytes) = ?head # split (CHR '','') (base64 bytes)"
    unfolding url by (rule split_at_first_separator)
  also have "split (CHR '','') (base64 bytes) = [base64 bytes]"
    by (rule split_without_separator) (rule base64_no_comma)
  finally show ?thesis by (simp add: index_def)
qed

lemma startsWith_shorter:
  "startsWith s p \<Longrightarrow> n \<le> length p \<Longrightarrow> take n s = take n p"
  by (metis startsWith_def min.absorb1 take_take)

lemma supported_not_text:
  assumes "isSupportedMimeType mime"
  shows "\<not> startsWith mime ''text/''"
proof
  assume t: "startsWith mime ''text/''"
  have t1: "take 1 mime = ''t''"
    using startsWith_shorter [OF t, of 1] by simp
  from assms consider "mime = ''application/pdf''"
    | "startsWith mime ''image/''" | "startsWith mime ''video/''"
    by (auto simp: isSupportedMimeType_def)
  then show False
  proof cases
    case 1
    with t1 show False by simp
  next
    case 2
    from startsWith_shorter [OF this, of 1] t1 show False by simp
  next
    case 3
    from startsWith_shorter [OF this, of 1] t1 show False by simp
  qed
qed


subsection \<open>Supported binaries\<close>

text \<open>
  C5 (as amended). For every file whose name does not end in \<open>.txt\<close>, \<open>.md\<close>,
  \<open>.csv\<close> or \<open>.json\<close>, whose MIME type is \<open>application/pdf\<close> or starts with
  \<open>image/\<close> or \<open>video/\<close> and holds no comma, and whose bytes can be read, the
  normalizer reads the file once as a data URL and builds exactly two parts: the inline
  data with the file's MIME type and the base64 encoding of its bytes, then one text
  instruction.
\<close>

theorem supported_binary_two_parts:
  assumes supported: "isSupportedMimeType (type f)"
    and not_txt: "\<not> endsWith (name f) ''.txt''"
    and not_md: "\<not> endsWith (name f) ''.md''"
    and not_csv: "\<not> endsWith (name f) ''.csv''"
    and not_json: "\<not> endsWith (name f) ''.json''"
    and no_comma: "CHR '','' \<notin> set (type f)"
    and readable: "content f = Inr bytes"
  shows "normalize (FileAsset f) =
           ([ReadAsDataURL],
            Inr [InlineData (type f) (Str (base64 bytes)), Text (binary_prompt (type f))])"
proof -
  have "\<not> isTextLike f"
    using supported_not_text [OF supported] not_txt not_md not_csv not_json
    by (simp add: isTextLike_def)
  moreover have "fileToBase64 f = Inr (Str (base64 bytes))"
    using readable data_url_payload [OF no_comma] by (simp add: fileToBase64_def)
  ultimately show ?thesis
    using supported by simp
qed

theorem supported_binary_two_parts_witness:
  "isSupportedMimeType ''image/png'' \<and>
   \<not> endsWith ''poster.png'' ''.txt'' \<and> \<not> endsWith ''poster.png'' ''.md'' \<and>
   \<not> endsWith ''poster.png'' ''.csv'' \<and> \<not> endsWith ''poster.png'' ''.json'' \<and>
   CHR '','' \<notin> set ''image/png'' \<and>
   normalize
     (FileAsset \<lparr>name = ''poster.png'', type = ''image/png'', size_bytes = 3,
                 content = Inr [77, 97, 110]\<rparr>) =
     ([ReadAsDataURL],
      Inr [InlineData ''image/png'' (Str ''TWFu''), Text (binary_prompt ''image/png'')])"
proof -
  have b: "base64 [77, 97, 110] = ''TWFu''"
    by (simp add: b64_digit_def b64_alphabet_def)
  show ?thesis
    using supported_binary_two_parts
      [of "\<lparr>name = ''poster.png'', type = ''image/png'', size_bytes = 3,
            content = Inr [77, 97, 110]\<rparr>" "[77, 97, 110]"]
    by (simp add: b isSupportedMimeType_def startsWith_def endsWith_def del: base64.simps)
qed

text \<open>
  C5 as stated fails. A file of type \<open>application/pdf\<close> named \<open>scan.pdf.txt\<close> takes
  the first branch, which tests the name before the MIME type of a binary is looked at:
  its bytes are read as text and the payload is a single text part.
\<close>

theorem supported_binary_two_parts_counterexample:
  "isSupportedMimeType ''application/pdf'' \<and>
   normalize
     (FileAsset \<lparr>name = ''scan.pdf.txt'', type = ''application/pdf'', size_bytes = 3,
                 content = Inr [77, 97, 110]\<rparr>) =
     ([ReadAsText], Inr [Text (text_prompt ''Man'')])"
proof -
  have t: "readAsText [77, 97, 110] = ''Man''"
    unfolding readAsText_def by code_simp
  show ?thesis
    by (simp add: isSupportedMimeType_def isTextLike_def startsWith_def endsWith_def
        fileToText_def t)
qed

subsection \<open>Other files\<close>

lemma digit_char_values:
  "list_all (\<lambda>d. digit_value (digit_char d) = d \<and> digit_char d \<in> set ''0123456789'') [0..<10]"
  unfolding digit_value_def digit_char_def by code_simp

lemma digit_char_value: "d < 10 \<Longrightarrow> digit_value (digit_char d) = d"
  using digit_char_values by (simp add: list_all_iff)

lemma digit_char_mod: "digit_char (d mod 10) = digit_char d"
  by (simp add: digit_char_def)

lemma digit_char_is_digit: "digit_char d \<in> set ''0123456789''"
proof -
  have "digit_char (d mod 10) \<in> set ''0123456789''"
    using digit_char_values by (simp add: list_all_iff)
  then show ?thesis by (simp only: digit_char_mod)
qed

lemma decimal_value_snoc: "decimal_value (s @ [c]) = 10 * decimal_value s + digit_value c"
  by (simp add: decimal_value_def)

text \<open>
  What \<open>string_of_nat\<close> prints: a non-empty string of decimal digits, with no leading
  zero unless it is \<open>0\<close> itself, that denotes the number.
\<close>

lemma string_of_nat_nonempty: "string_of_nat n \<noteq> []"
  by (subst string_of_nat.simps) simp

lemma string_of_nat_digits: "set (string_of_nat n) \<subseteq> set ''0123456789''"
proof (induction n rule: string_of_nat.induct)
  case (1 n)
  show ?case
  proof (cases "n < 10")
    case True
    then show ?thesis
      using digit_char_is_digit [of n] by (subst string_of_nat.simps) simp
  next
    case False
    with "1.IH" show ?thesis
      using digit_char_is_digit [of "n mod 10"] by (subst string_of_nat.simps) simp
  qed
qed

lemma string_of_nat_value: "decimal_value (string_of_nat n) = n"
proof (induction n rule: string_of_nat.induct)
  case (1 n)
  show ?case
  proof (cases "n < 10")
    case True
    then show ?thesis
      by (subst string_of_nat.simps) (simp add: decimal_value_def digit_char_value)
  next
    case False
    with "1.IH" show ?thesis
      by (subst string_of_nat.simps) (simp add: decimal_value_snoc digit_char_value)
  qed
qed

lemma string_of_nat_no_leading_zero: "n \<noteq> 0 \<Longrightarrow> hd (string_of_nat n) \<noteq> CHR ''0''"
proof (induction n rule: string_of_nat.induct)
  case (1 n)
  show ?case
  proof (cases "n < 10")
    case True
    have "digit_value (digit_char n) = n" using True by (rule digit_char_value)
    with "1.prems" have "digit_char n \<noteq> CHR ''0''"
      by (auto simp: digit_value_def)
    with True show ?thesis by (subst string_of_nat.simps) simp
  next
    case False
    then have "n div 10 \<noteq> 0" by simp
    with "1.IH" False have "hd (string_of_nat (n div 10)) \<noteq> CHR ''0''" by simp
    with False show ?thesis
      by (subst string_of_nat.simps) (simp add: string_of_nat_nonempty)
  qed
qed

lemma string_of_nat_zero: "string_of_nat 0 = ''0''"
  by (simp add: string_of_nat.simps digit_char_def)

text \<open>
  C6. For every file that is neither text-like (MIME type starting with \<open>text/\<close>, or a
  name ending in \<open>.txt\<close>, \<open>.md\<close>, \<open>.csv\<close> or \<open>.json\<close>) nor a supported binary, the
  normalizer builds exactly one text part. The text contains the file's name, the line
  \<open>File Size: n bytes\<close> where \<open>n\<close> is a non-empty string of decimal digits that denotes
  the file's size, without a leading zero unless the size is 0, and the file's declared
  MIME type. No read is asked of the
  FileReader, by the normalizer or by \<open>analyzeAsset\<close> as a whole, and the result is the
  same whatever the content of the file.
\<close>

theorem unsupported_file_metadata_only:
  assumes "\<not> isTextLike f" and "\<not> isSupportedMimeType (type f)"
  shows "normalize (FileAsset f) = ([], Inr [Text (metadata_prompt f)]) \<and>
         includes_str (metadata_prompt f) (''File Name: '' @ name f @ [NL]) \<and>
         includes_str (metadata_prompt f)
           (''File Size: '' @ string_of_nat (size_bytes f) @ '' bytes'' @ [NL]) \<and>
         string_of_nat (size_bytes f) \<noteq> [] \<and>
         set (string_of_nat (size_bytes f)) \<subseteq> set ''0123456789'' \<and>
         decimal_value (string_of_nat (size_bytes f)) = size_bytes f \<and>
         (if size_bytes f = 0 then string_of_nat (size_bytes f) = ''0''
          else hd (string_of_nat (size_bytes f)) \<noteq> CHR ''0'') \<and>
         includes_str (metadata_prompt f) (''File Type: '' @ type f @ [NL]) \<and>
         fst (analyzeAsset apiKey api (FileAsset f)) = [] \<and>
         normalize (FileAsset (f\<lparr>content := c\<rparr>)) = normalize (FileAsset f)"
proof -
  have parts: "normalize (FileAsset f) = ([], Inr [Text (metadata_prompt f)])"
    using assms by simp
  have "metadata_prompt f =
      (''Perform a simulated forensic analysis on this file.'' @ [NL, NL]) @
      (''File Name: '' @ name f @ [NL]) @
      (''File Size: '' @ string_of_nat (size_bytes f) @ '' bytes'' @ [NL] @
      ''File Type: '' @ type f @ [NL, NL] @
      ''Since direct content analysis is not available for this file type via the current interface, simulate findings based on the metadata and common piracy patterns associated with this file format.'')"
    by (simp add: metadata_prompt_def)
  then have has_name: "includes_str (metadata_prompt f) (''File Name: '' @ name f @ [NL])"
    by (simp only: includes_str_middle)
  have "metadata_prompt f =
      (''Perform a simulated forensic analysis on this file.'' @ [NL, NL] @ ''File Name: '' @
       name f @ [NL]) @
      (''File Size: '' @ string_of_nat (size_bytes f) @ '' bytes'' @ [NL]) @
      (''File Type: '' @ type f @ [NL, NL] @
      ''Since direct content analysis is not available for this file type via the current interface, simulate findings based on the metadata and common piracy patterns associated with this file format.'')"
    by (simp add: metadata_prompt_def)
  then have has_size: "includes_str (metadata_prompt f)
      (''File Size: '' @ string_of_nat (size_bytes f) @ '' bytes'' @ [NL])"
    by (simp only: includes_str_middle)
  have "metadata_prompt f =
      (''Perform a simulated forensic analysis on this file.'' @ [NL, NL] @ ''File Name: '' @
       name f @ [NL] @ ''File Size: '' @ string_of_nat (size_bytes f) @ '' bytes'' @ [NL]) @
      (''File Type: '' @ type f @ [NL]) @ ([NL] @
      ''Since direct content analysis is not available for this file type via the current interface, simulate findings based on the metadata and common piracy patterns associated with this file format.'')"
    by (simp add: metadata_prompt_def)
  then have has_type: "includes_str (metadata_prompt f) (''File Type: '' @ type f @ [NL])"
    by (simp only: includes_str_middle)
  have same: "normalize (FileAsset (f\<lparr>content := c\<rparr>)) = normalize (FileAsset f)"
    using assms by (simp add: isTextLike_def metadata_prompt_def)
  have no_reads: "fst (analyzeAsset apiKey api (FileAsset f)) = []"
    unfolding analyzeAsset_def parts by simp
  have canonical: "if size_bytes f = 0 then string_of_nat (size_bytes f) = ''0''
      else hd (string_of_nat (size_bytes f)) \<noteq> CHR ''0''"
    by (simp add: string_of_nat_zero string_of_nat_no_leading_zero)
  from parts has_name has_size has_type no_reads same canonical
    string_of_nat_nonempty [of "size_bytes f"] string_of_nat_digits [of "size_bytes f"]
    string_of_nat_value [of "size_bytes f"]
  show ?thesis by blast
qed

lemma string_of_nat_1234: "string_of_nat 1234 = ''1234''"
  by (simp add: string_of_nat.simps digit_char_def)

theorem unsupported_file_metadata_only_witness:
  "\<not> isTextLike \<lparr>name = ''thesis.docx'', type = ''application/msword'', size_bytes = 1234,
                  content = Inr [80, 75, 3, 4]\<rparr> \<and>
   \<not> isSupportedMimeType ''application/msword'' \<and>
   normalize
     (FileAsset \<lparr>name = ''thesis.docx'', type = ''application/msword'', size_bytes = 1234,
                 content = Inr [80, 75, 3, 4]\<rparr>) =
     ([], Inr [Text
        (''Perform a simulated forensic analysis on this file.'' @ [NL, NL] @
         ''File Name: thesis.docx'' @ [NL] @
         ''File Size: 1234 bytes'' @ [NL] @
         ''File Type: application/msword'' @ [NL, NL] @
         ''Since direct content analysis is not available for this file type via the current interface, simulate findings based on the metadata and common piracy patterns associated with this file format.'')]) \<and>
   includes_str (metadata_prompt
        \<lparr>name = ''thesis.docx'', type = ''application/msword'', size_bytes = 1234,
         content = Inr [80, 75, 3, 4]\<rparr>) (''File Size: 1234 bytes'' @ [NL]) \<and>
   decimal_value ''1234'' = 1234"
proof -
  have p: "metadata_prompt \<lparr>name = ''thesis.docx'', type = ''application/msword'',
        size_bytes = 1234, content = Inr [80, 75, 3, 4]\<rparr> =
      ''Perform a simulated forensic analysis on this file.'' @ [NL, NL] @
         ''File Name: thesis.docx'' @ [NL] @
         ''File Size: 1234 bytes'' @ [NL] @
         ''File Type: application/msword'' @ [NL, NL] @
         ''Since direct content analysis is not available for this file type via the current interface, simulate findings based on the metadata and common piracy patterns associated with this file format.''"
    by (simp add: metadata_prompt_def string_of_nat_1234)
  have h1: "\<not> isTextLike \<lparr>name = ''thesis.docx'', type = ''application/msword'',
        size_bytes = 1234, content = Inr [80, 75, 3, 4]\<rparr>"
    and h2: "\<not> isSupportedMimeType ''application/msword''"
    by (simp_all add: isTextLike_def isSupportedMimeType_def startsWith_def endsWith_def)
  from unsupported_file_metadata_only
    [of "\<lparr>name = ''thesis.docx'', type = ''application/msword'', size_bytes = 1234,
          content = Inr [80, 75, 3, 4]\<rparr>"] h1 h2
  have t: "normalize
     (FileAsset \<lparr>name = ''thesis.docx'', type = ''application/msword'', size_bytes = 1234,
                 content = Inr [80, 75, 3, 4]\<rparr>) =
     ([], Inr [Text (metadata_prompt \<lparr>name = ''thesis.docx'', type = ''application/msword'',
        size_bytes = 1234, content = Inr [80, 75, 3, 4]\<rparr>)])"
    and u: "includes_str (metadata_prompt
        \<lparr>name = ''thesis.docx'', type = ''application/msword'', size_bytes = 1234,
         content = Inr [80, 75, 3, 4]\<rparr>)
         (''File Size: '' @ string_of_nat 1234 @ '' bytes'' @ [NL])"
    and v: "decimal_value (string_of_nat 1234) = 1234"
    by simp_all
  from u have u': "includes_str (metadata_prompt
        \<lparr>name = ''thesis.docx'', type = ''application/msword'', size_bytes = 1234,
         content = Inr [80, 75, 3, 4]\<rparr>) (''File Size: 1234 bytes'' @ [NL])"
    by (simp add: string_of_nat_1234)
  from v have v': "decimal_value ''1234'' = 1234"
    by (simp only: string_of_nat_1234)
  from h1 h2 t u' v' show ?thesis
    by (simp only: p) simp
qed

section \<open>Properties of the returned report\<close>

text \<open>
  C9, at the response that has the five required fields and nothing else, which the
  schema allows. The requester returns the value as \<open>JSON.parse\<close> gave it: the required
  fields are there, and the array fields \<open>key_evidence\<close>, \<open>suspicious_urls\<close>,
  \<open>probable_original_sources\<close>, \<open>data_gaps\<close>, \<open>recommended_actions\<close> and
  \<open>engine_scores\<close> are absent, not empty arrays; \<open>ReportView\<close> then reads a property
  of an absent field.
\<close>

theorem parsed_report_without_defaults:
  "outcome (requester (scripted
       [Resolves \<lparr>text_of = Str minimal_report_text, parsed = Inr minimal_report\<rparr>]
       (Rejects (new_Error ''API key not valid'')) [Text ''check''])) = Inr minimal_report \<and>
   list_all (\<lambda>k. get_field minimal_report k \<noteq> None) reportSchema_required \<and>
   list_all (\<lambda>k. get_field minimal_report k = None) reportSchema_arrays \<and>
   ReportView_reads_absent_field minimal_report"
  by (simp add: requester_def retry_loop_returns scripted_def minimal_report_text_def
      minimal_report_def reportSchema_required_def reportSchema_arrays_def
      ReportView_reads_absent_field_def ReportView_unguarded_def)

section \<open>Properties of the application state controller\<close>

lemma run_snoc: "run (events @ [e]) = fire (run events) e"
  by (simp add: run_def)

lemma after_update_fields:
  "app (after_update w s fresh) = s"
  "submitted (after_update w s fresh) = submitted w"
  "pending (after_update w s fresh) = pending w"
  by (auto simp: after_update_def)

subsection \<open>The size limit\<close>

lemma within_limit_initial: "within_limit initial_Sys"
  by (simp add: within_limit_def initial_Sys_def initial_App_def)

lemma within_limit_fire: "within_limit w \<Longrightarrow> within_limit (fire w e)"
proof (cases e)
  case (FileChange files)
  then show "within_limit w \<Longrightarrow> within_limit (fire w e)"
    by (cases files) (auto simp: within_limit_def after_update_fields)
next
  case StartScan
  then show "within_limit w \<Longrightarrow> within_limit (fire w e)"
    by (auto simp: within_limit_def startScan_def chosen_asset_def after_update_fields
        split: option.splits if_splits)
next
  case (Settled result)
  then show "within_limit w \<Longrightarrow> within_limit (fire w e)"
    by (cases result) (auto simp: within_limit_def after_update_fields)
qed (auto simp: within_limit_def urlChange_def navButton_def onScanComplete_def resetApp_def
      after_update_fields)

lemma within_limit_run: "within_limit (run events)"
proof (induction events rule: rev_induct)
  case Nil
  show ?case by (simp add: run_def within_limit_initial)
next
  case (snoc e events)
  then show ?case by (simp add: run_snoc within_limit_fire)
qed

text \<open>
  C7. A file larger than 50 MiB is refused by \<open>handleFileChange\<close>: an alert is shown and
  the state stays as it was, whatever it was. After any sequence of events the file slot
  does not hold such a file and no such file has been handed to \<open>analyzeAsset\<close>, so no
  request is ever made for it.
\<close>

theorem oversized_file_rejected:
  assumes "size_bytes f > 50 * 1024 * 1024"
  shows "handleFileChange (f # fs) s =
           (Some ''File too large. Please upload a file smaller than 50MB.'', s) \<and>
         file (app (run events)) \<noteq> Some f \<and>
         FileAsset f \<notin> set (submitted (run events))"
proof -
  from assms have big: "size_bytes f > max_file_size"
    by (simp add: max_file_size_def)
  then have "handleFileChange (f # fs) s =
      (Some ''File too large. Please upload a file smaller than 50MB.'', s)"
    by simp
  moreover have "file (app (run events)) \<noteq> Some f"
    using within_limit_run [of events] big by (auto simp: within_limit_def)
  moreover have "FileAsset f \<notin> set (submitted (run events))"
    using within_limit_run [of events] big by (auto simp: within_limit_def)
  ultimately show ?thesis by blast
qed

theorem oversized_file_rejected_witness:
  "(52428801::nat) > 50 * 1024 * 1024 \<and>
   appState (app (run [FileChange
       [\<lparr>name = ''film.mp4'', type = ''video/mp4'', size_bytes = 52428801,
         content = Inr []\<rparr>], StartScan])) = IDLE \<and>
   file (app (run [FileChange
       [\<lparr>name = ''film.mp4'', type = ''video/mp4'', size_bytes = 52428801,
         content = Inr []\<rparr>], StartScan])) \<noteq>
     Some \<lparr>name = ''film.mp4'', type = ''video/mp4'', size_bytes = 52428801,
           content = Inr []\<rparr> \<and>
   FileAsset \<lparr>name = ''film.mp4'', type = ''video/mp4'', size_bytes = 52428801,
              content = Inr []\<rparr> \<notin>
     set (submitted (run [FileChange
       [\<lparr>name = ''film.mp4'', type = ''video/mp4'', size_bytes = 52428801,
         content = Inr []\<rparr>], StartScan]))"
proof -
  have idle: "appState (app (run [FileChange
       [\<lparr>name = ''film.mp4'', type = ''video/mp4'', size_bytes = 52428801,
         content = Inr []\<rparr>], StartScan])) = IDLE"
    by (simp add: run_def initial_Sys_def initial_App_def max_file_size_def startScan_def
        chosen_asset_def after_update_def)
  show ?thesis
    using oversized_file_rejected
      [of "\<lparr>name = ''film.mp4'', type = ''video/mp4'', size_bytes = 52428801,
            content = Inr []\<rparr>" "[]" "initial_App"
          "[FileChange
       [\<lparr>name = ''film.mp4'', type = ''video/mp4'', size_bytes = 52428801,
         content = Inr []\<rparr>], StartScan]"] idle
    by simp
qed

subsection \<open>Leaving the scanning state\<close>

lemma without_keeps:
  "x \<in> set xs \<Longrightarrow> k < length xs \<Longrightarrow> xs ! k \<noteq> x \<Longrightarrow> x \<in> set (without xs k)"
proof -
  assume x: "x \<in> set xs" and k: "k < length xs" and ne: "xs ! k \<noteq> x"
  have "xs = take k xs @ xs ! k # drop (Suc k) xs"
    using k by (simp add: id_take_nth_drop)
  then have "set xs = set (take k xs) \<union> {xs ! k} \<union> set (drop (Suc k) xs)"
    by (metis Un_insert_right list.simps(15) set_append sup_bot.right_neutral Un_assoc insert_is_Un)
  with x ne show ?thesis by (auto simp: without_def)
qed

lemma completion_armed_initial: "completion_armed initial_Sys"
  by (simp add: completion_armed_def initial_Sys_def steps_length_def)

lemma completion_armed_after_update:
  "completion_armed w \<Longrightarrow> completion_armed (after_update w s fresh)"
  by (auto simp: completion_armed_def after_update_def steps_length_def)

lemma completion_armed_fire: "completion_armed w \<Longrightarrow> completion_armed (fire w e)"
proof (cases e)
  case StartScan
  assume "completion_armed w"
  then have "completion_armed (after_update w s False)" for s
    by (rule completion_armed_after_update)
  then have "completion_armed
      ((after_update w s False)\<lparr>submitted := xs, pending := n\<rparr>)" for s xs n
    by (simp add: completion_armed_def)
  with \<open>completion_armed w\<close> StartScan show "completion_armed (fire w e)"
    by (simp split: prod.splits option.splits)
next
  case (Settled result)
  assume "completion_armed w"
  then have "completion_armed (after_update w s b)" for s b
    by (rule completion_armed_after_update)
  then have "completion_armed ((after_update w s b)\<lparr>pending := n\<rparr>)" for s b n
    by (simp add: completion_armed_def)
  with \<open>completion_armed w\<close> Settled show "completion_armed (fire w e)"
    by simp
next
  case StepTimeout
  assume "completion_armed w"
  with StepTimeout show "completion_armed (fire w e)"
    by (auto simp: completion_armed_def steps_length_def)
next
  case (CompleteTimeout k)
  assume inv: "completion_armed w"
  show "completion_armed (fire w e)"
  proof (cases "k < length (timers w)")
    case False
    with inv CompleteTimeout show ?thesis by simp
  next
    case k: True
    show ?thesis
    proof (cases "truthy (timers w ! k)")
      case True
      show ?thesis
      proof (cases "appState (app w) = REPORT_READY")
        case ready: True
        with inv have "\<not> steps_length \<le> currentStepIndex w"
          by (auto simp: completion_armed_def)
        then have "completion_armed (w\<lparr>timers := without (timers w) k\<rparr>)"
          by (simp add: completion_armed_def)
        moreover have "(app w)\<lparr>appState := REPORT_READY\<rparr> = app w"
          using ready by simp
        ultimately show ?thesis
          using CompleteTimeout k True
          by (simp add: onScanComplete_def after_update_def)
      next
        case False
        then have "(app w)\<lparr>appState := REPORT_READY\<rparr> \<noteq> app w"
          by (metis App.select_convs(1) App.surjective App.update_convs(1))
        then show ?thesis
          using CompleteTimeout k True
          by (simp add: onScanComplete_def after_update_def completion_armed_def
              steps_length_def)
      qed
    next
      case False
      have "completion_armed (w\<lparr>timers := without (timers w) k\<rparr>)"
        unfolding completion_armed_def
      proof (intro conjI impI)
        assume "steps_length \<le> currentStepIndex (w\<lparr>timers := without (timers w) k\<rparr>)"
        with inv show "appState (app (w\<lparr>timers := without (timers w) k\<rparr>)) = SCANNING"
          by (simp add: completion_armed_def)
      next
        assume a: "steps_length \<le> currentStepIndex (w\<lparr>timers := without (timers w) k\<rparr>) \<and>
            truthy (report (app (w\<lparr>timers := without (timers w) k\<rparr>)))"
        with inv have "report (app w) \<in> set (timers w)"
          by (simp add: completion_armed_def)
        moreover from a False have "timers w ! k \<noteq> report (app w)" by auto
        ultimately have "report (app w) \<in> set (without (timers w) k)"
          using k by (intro without_keeps)
        then show "report (app (w\<lparr>timers := without (timers w) k\<rparr>))
            \<in> set (timers (w\<lparr>timers := without (timers w) k\<rparr>))"
          by simp
      qed
      moreover have "fire w e = w\<lparr>timers := without (timers w) k\<rparr>"
        using CompleteTimeout k False by (simp add: onScanComplete_def after_update_def)
      ultimately show ?thesis by simp
    qed
  qed
qed (simp_all add: completion_armed_after_update)

lemma completion_armed_run: "completion_armed (run events)"
proof (induction events rule: rev_induct)
  case Nil
  show ?case by (simp add: run_def completion_armed_initial)
next
  case (snoc e events)
  then show ?case by (simp add: run_snoc completion_armed_fire)
qed

text \<open>
  The remaining step timers of a running animation: the index reaches the end, and the
  effect that follows the last of them arms a completion timer with the report in the
  slot.
\<close>

lemma animation_finishes:
  "appState (app w) = SCANNING \<Longrightarrow> currentStepIndex w + n = steps_length \<Longrightarrow> 0 < n \<Longrightarrow>
   foldl fire w (replicate n StepTimeout) =
     w\<lparr>currentStepIndex := steps_length, timers := timers w @ [report (app w)]\<rparr>"
proof (induction n arbitrary: w)
  case 0
  then show ?case by simp
next
  case (Suc n)
  show ?case
  proof (cases "n = 0")
    case True
    with Suc.prems show ?thesis by simp
  next
    case False
    let ?w = "w\<lparr>currentStepIndex := currentStepIndex w + 1\<rparr>"
    from Suc.prems False have step: "fire w StepTimeout = ?w"
      by simp
    have "foldl fire ?w (replicate n StepTimeout) =
        ?w\<lparr>currentStepIndex := steps_length, timers := timers ?w @ [report (app ?w)]\<rparr>"
      using Suc.prems False by (intro Suc.IH) simp_all
    with step show ?thesis by simp
  qed
qed

text \<open>
  C4 (as amended). From any reachable scanning state with the request in flight, whatever
  the animation has done so far: once the request has resolved with a truthy value \<open>r\<close>
  and the animation has run to its end, the state is still \<open>SCANNING\<close>, the report
  slot holds \<open>r\<close> and a completion timer whose callback captured \<open>r\<close> is armed; when
  such a timer fires the state is \<open>REPORT_READY\<close> and the report slot holds \<open>r\<close>,
  while a timer whose callback captured a falsy report changes nothing. When the request
  is rejected instead, the state is \<open>ERROR\<close> and the error message is recorded.
\<close>

theorem scanning_success_and_failure:
  assumes scanning: "appState (app (run events)) = SCANNING"
    and inflight: "pending (run events) > 0"
    and r: "truthy r"
    and w1: "w1 = fire (run events) (Settled (Inr r))"
    and w2: "w2 = foldl fire w1 (replicate (steps_length - currentStepIndex w1) StepTimeout)"
  shows "appState (app w2) = SCANNING \<and> report (app w2) = r \<and>
         r \<in> set (timers w2) \<and>
         (\<forall>k<length (timers w2). timers w2 ! k = r \<longrightarrow>
            appState (app (fire w2 (CompleteTimeout k))) = REPORT_READY \<and>
            report (app (fire w2 (CompleteTimeout k))) = r) \<and>
         (\<forall>k<length (timers w2). \<not> truthy (timers w2 ! k) \<longrightarrow>
            app (fire w2 (CompleteTimeout k)) = app w2) \<and>
         appState (app (fire (run events) (Settled (Inl err)))) = ERROR \<and>
         error (app (fire (run events) (Settled (Inl err)))) =
           Some ''Failed to generate report. Please try again.''"
proof -
  have app1: "app w1 = (app (run events))\<lparr>report := r\<rparr>"
    using inflight by (simp add: w1 after_update_fields)
  have armed1: "completion_armed w1"
    unfolding w1 using completion_armed_run by (rule completion_armed_fire)
  have app2: "app w2 = app w1" and in2: "r \<in> set (timers w2)"
  proof -
    show "app w2 = app w1"
    proof (cases "steps_length \<le> currentStepIndex w1")
      case True
      then show ?thesis by (simp add: w2)
    next
      case False
      with scanning app1 show ?thesis
        by (simp add: w2 animation_finishes)
    qed
    show "r \<in> set (timers w2)"
    proof (cases "steps_length \<le> currentStepIndex w1")
      case True
      with armed1 r app1 show ?thesis
        by (simp add: w2 completion_armed_def)
    next
      case False
      with scanning app1 show ?thesis
        by (simp add: w2 animation_finishes)
    qed
  qed
  have fired: "appState (app (fire w2 (CompleteTimeout k))) = REPORT_READY \<and>
      report (app (fire w2 (CompleteTimeout k))) = r"
    if "k < length (timers w2)" "timers w2 ! k = r" for k
    using that r app1 app2 by (simp add: after_update_fields onScanComplete_def)
  have ignored: "app (fire w2 (CompleteTimeout k)) = app w2"
    if "k < length (timers w2)" "\<not> truthy (timers w2 ! k)" for k
    using that by (simp add: after_update_fields onScanComplete_def)
  have still: "appState (app w2) = SCANNING" and holds: "report (app w2) = r"
    using scanning app1 app2 by simp_all
  have "appState (app (fire (run events) (Settled (Inl err)))) = ERROR \<and>
      error (app (fire (run events) (Settled (Inl err)))) =
        Some ''Failed to generate report. Please try again.''"
    using inflight by (simp add: after_update_fields)
  with still holds in2 fired ignored show ?thesis by blast
qed

lemma minimal_report_object:
  "truthy minimal_report" "is_fresh_object minimal_report" "minimal_report \<noteq> Null"
  by (simp_all add: minimal_report_def)

lemma url_submitted:
  "run [NavButton UrlMode, UrlChange ''http://example.com'', StartScan] =
     \<lparr>app = \<lparr>appState = SCANNING, inputMode = UrlMode, file = None,
             urlInput = ''http://example.com'', report = Null, error = None\<rparr>,
      submitted = [Url ''http://example.com''], pending = 1, currentStepIndex = 0,
      timers = []\<rparr>"
  by (simp add: run_def initial_Sys_def initial_App_def startScan_def chosen_asset_def
      navButton_def urlChange_def after_update_def steps_length_def)

lemma report_arrived:
  "fire (run [NavButton UrlMode, UrlChange ''http://example.com'', StartScan])
      (Settled (Inr minimal_report)) =
     \<lparr>app = \<lparr>appState = SCANNING, inputMode = UrlMode, file = None,
             urlInput = ''http://example.com'', report = minimal_report, error = None\<rparr>,
      submitted = [Url ''http://example.com''], pending = 0, currentStepIndex = 0,
      timers = []\<rparr>"
  unfolding url_submitted
  by (simp add: after_update_def steps_length_def minimal_report_object)

lemma six_steps: "replicate 6 StepTimeout =
    [StepTimeout, StepTimeout, StepTimeout, StepTimeout, StepTimeout, StepTimeout]"
  by (simp add: eval_nat_numeral)

lemma animation_ended:
  "foldl fire
     (fire (run [NavButton UrlMode, UrlChange ''http://example.com'', StartScan])
        (Settled (Inr minimal_report)))
     [StepTimeout, StepTimeout, StepTimeout, StepTimeout, StepTimeout, StepTimeout] =
     \<lparr>app = \<lparr>appState = SCANNING, inputMode = UrlMode, file = None,
             urlInput = ''http://example.com'', report = minimal_report, error = None\<rparr>,
      submitted = [Url ''http://example.com''], pending = 0, currentStepIndex = 6,
      timers = [minimal_report]\<rparr>"
  unfolding report_arrived six_steps [symmetric]
  by (subst animation_finishes) (simp_all add: steps_length_def)

theorem scanning_success_and_failure_witness:
  "appState (app (run [NavButton UrlMode, UrlChange ''http://example.com'', StartScan]))
     = SCANNING \<and>
   pending (run [NavButton UrlMode, UrlChange ''http://example.com'', StartScan]) > 0 \<and>
   truthy minimal_report \<and>
   timers (foldl fire
       (fire (run [NavButton UrlMode, UrlChange ''http://example.com'', StartScan])
          (Settled (Inr minimal_report)))
       [StepTimeout, StepTimeout, StepTimeout, StepTimeout, StepTimeout, StepTimeout])
     = [minimal_report] \<and>
   appState (app (fire (foldl fire
       (fire (run [NavButton UrlMode, UrlChange ''http://example.com'', StartScan])
          (Settled (Inr minimal_report)))
       [StepTimeout, StepTimeout, StepTimeout, StepTimeout, StepTimeout, StepTimeout])
       (CompleteTimeout 0))) = REPORT_READY \<and>
   report (app (fire (foldl fire
       (fire (run [NavButton UrlMode, UrlChange ''http://example.com'', StartScan])
          (Settled (Inr minimal_report)))
       [StepTimeout, StepTimeout, StepTimeout, StepTimeout, StepTimeout, StepTimeout])
       (CompleteTimeout 0))) = minimal_report"
proof -
  let ?w = "run [NavButton UrlMode, UrlChange ''http://example.com'', StartScan]"
  let ?w1 = "fire ?w (Settled (Inr minimal_report))"
  let ?w2 = "foldl fire ?w1
       [StepTimeout, StepTimeout, StepTimeout, StepTimeout, StepTimeout, StepTimeout]"
  have s: "appState (app ?w) = SCANNING" and p: "pending ?w > 0"
    by (simp_all add: url_submitted)
  have t: "truthy minimal_report"
    by (rule minimal_report_object)
  have "steps_length - currentStepIndex ?w1 = 6"
    by (simp only: report_arrived) (simp add: steps_length_def)
  then have w2: "?w2 = foldl fire ?w1
      (replicate (steps_length - currentStepIndex ?w1) StepTimeout)"
    by (simp only: six_steps)
  have armed: "timers ?w2 = [minimal_report]"
    by (simp only: animation_ended) simp
  note th = scanning_success_and_failure [OF s p t refl w2]
  have zero: "0 < length (timers ?w2)" and first: "timers ?w2 ! 0 = minimal_report"
    by (simp_all only: armed) simp_all
  from th [THEN conjunct2, THEN conjunct2, THEN conjunct2, THEN conjunct1,
      rule_format, OF zero first]
  have fired: "appState (app (fire ?w2 (CompleteTimeout 0))) = REPORT_READY \<and>
      report (app (fire ?w2 (CompleteTimeout 0))) = minimal_report" .
  show ?thesis
    by (intro conjI) (rule s p t armed fired [THEN conjunct1] fired [THEN conjunct2])+
qed

text \<open>
  C4 as stated fails. A URL is submitted and the response text is \<open>null\<close>, which
  \<open>JSON.parse\<close> turns into \<open>null\<close> and the requester returns. The animation runs to
  its end and its completion timer fires: the state is still \<open>SCANNING\<close>, and no call
  and no timer is left that could change it.
\<close>

theorem scanning_success_and_failure_counterexample:
  "attempt (Resolves \<lparr>text_of = Str ''null'', parsed = Inr Null\<rparr>) = Inr Null \<and>
   run [NavButton UrlMode, UrlChange ''http://example.com'', StartScan,
       Settled (Inr Null),
       StepTimeout, StepTimeout, StepTimeout, StepTimeout, StepTimeout, StepTimeout,
       CompleteTimeout 0] =
     \<lparr>app = \<lparr>appState = SCANNING, inputMode = UrlMode, file = None,
             urlInput = ''http://example.com'', report = Null, error = None\<rparr>,
      submitted = [Url ''http://example.com''], pending = 0, currentStepIndex = 6,
      timers = []\<rparr>"
proof -
  let ?w = "run [NavButton UrlMode, UrlChange ''http://example.com'', StartScan]"
  have split: "run [NavButton UrlMode, UrlChange ''http://example.com'', StartScan,
       Settled (Inr Null),
       StepTimeout, StepTimeout, StepTimeout, StepTimeout, StepTimeout, StepTimeout,
       CompleteTimeout 0] =
      fire (foldl fire (fire ?w (Settled (Inr Null))) (replicate 6 StepTimeout))
        (CompleteTimeout 0)"
    by (simp only: run_def foldl.simps six_steps)
  have a: "fire ?w (Settled (Inr Null)) =
     \<lparr>app = \<lparr>appState = SCANNING, inputMode = UrlMode, file = None,
             urlInput = ''http://example.com'', report = Null, error = None\<rparr>,
      submitted = [Url ''http://example.com''], pending = 0, currentStepIndex = 0,
      timers = []\<rparr>"
    unfolding url_submitted by (simp add: after_update_def)
  have b: "foldl fire (fire ?w (Settled (Inr Null))) (replicate 6 StepTimeout) =
     \<lparr>app = \<lparr>appState = SCANNING, inputMode = UrlMode, file = None,
             urlInput = ''http://example.com'', report = Null, error = None\<rparr>,
      submitted = [Url ''http://example.com''], pending = 0, currentStepIndex = 6,
      timers = [Null]\<rparr>"
    unfolding a by (subst animation_finishes) (simp_all add: steps_length_def)
  show ?thesis
    unfolding split b by (simp add: onScanComplete_def after_update_def without_def)
qed

subsection \<open>A reset with a request in flight\<close>

text \<open>
  C8 (as amended). A reset while a request is in flight in the scanning state clears the
  slots and returns to \<open>IDLE\<close>, but the request is not aborted and its outcome is not
  discarded. A late response is stored in the report slot, the state staying \<open>IDLE\<close>
  with the file, URL and error slots cleared; a late error records the error message and
  moves the state to \<open>ERROR\<close>, the file, URL and report slots staying cleared.
\<close>

theorem late_outcome_after_reset:
  assumes "appState (app w) = SCANNING" and "pending w > 0"
  shows "app (fire (fire w Reset) (Settled (Inr r))) =
           \<lparr>appState = IDLE, inputMode = inputMode (app w), file = None, urlInput = [],
            report = r, error = None\<rparr> \<and>
         app (fire (fire w Reset) (Settled (Inl err))) =
           \<lparr>appState = ERROR, inputMode = inputMode (app w), file = None, urlInput = [],
            report = Null, error = Some ''Failed to generate report. Please try again.''\<rparr>"
  using assms(2) by (simp add: resetApp_def after_update_fields)

theorem late_outcome_after_reset_witness:
  "appState (app (run [NavButton UrlMode, UrlChange ''http://example.com'', StartScan]))
     = SCANNING \<and>
   pending (run [NavButton UrlMode, UrlChange ''http://example.com'', StartScan]) > 0 \<and>
   app (fire (fire (run [NavButton UrlMode, UrlChange ''http://example.com'', StartScan]) Reset)
          (Settled (Inr minimal_report))) =
     \<lparr>appState = IDLE, inputMode = UrlMode, file = None, urlInput = [],
      report = minimal_report, error = None\<rparr>"
proof -
  have s: "appState (app (run [NavButton UrlMode, UrlChange ''http://example.com'', StartScan]))
      = SCANNING"
    and p: "pending (run [NavButton UrlMode, UrlChange ''http://example.com'', StartScan]) > 0"
    and m: "inputMode (app (run [NavButton UrlMode, UrlChange ''http://example.com'', StartScan]))
      = UrlMode"
    by (simp_all add: url_submitted)
  from late_outcome_after_reset [OF s p, of minimal_report] s p m
  show ?thesis by simp
qed

text \<open>
  C8 as stated fails. A URL is submitted, the controller is reset while the request is in
  flight, and the request then fails: the state is \<open>ERROR\<close>, not \<open>IDLE\<close>, and the
  error slot is filled again.
\<close>

theorem late_outcome_discarded_counterexample:
  "appState (app (run [NavButton UrlMode, UrlChange ''http://example.com'', StartScan, Reset]))
     = IDLE \<and>
   pending (run [NavButton UrlMode, UrlChange ''http://example.com'', StartScan, Reset]) = 1 \<and>
   appState (app (run [NavButton UrlMode, UrlChange ''http://example.com'', StartScan, Reset,
       Settled (Inl (new_Error ''You exceeded your current quota''))])) = ERROR \<and>
   error (app (run [NavButton UrlMode, UrlChange ''http://example.com'', StartScan, Reset,
       Settled (Inl (new_Error ''You exceeded your current quota''))])) =
     Some ''Failed to generate report. Please try again.''"
proof -
  let ?w = "run [NavButton UrlMode, UrlChange ''http://example.com'', StartScan]"
  have split: "run [NavButton UrlMode, UrlChange ''http://example.com'', StartScan, Reset] =
      fire ?w Reset"
    "run [NavButton UrlMode, UrlChange ''http://example.com'', StartScan, Reset,
       Settled (Inl (new_Error ''You exceeded your current quota''))] =
      fire (fire ?w Reset) (Settled (Inl (new_Error ''You exceeded your current quota'')))"
    by (simp_all only: run_def foldl.simps)
  have a: "fire ?w Reset =
     \<lparr>app = \<lparr>appState = IDLE, inputMode = UrlMode, file = None,
             urlInput = [], report = Null, error = None\<rparr>,
      submitted = [Url ''http://example.com''], pending = 1, currentStepIndex = 0,
      timers = []\<rparr>"
    unfolding url_submitted by (simp add: after_update_def resetApp_def)
  show ?thesis
    unfolding split a by (simp add: after_update_def)
qed

subsection \<open>A completion timer that outlives the scan\<close>

text \<open>
  C10, at a run of the revision of \<open>App\<close> whose header logo calls \<open>resetApp\<close> in every
  state. A URL is submitted, the response arrives with a report, the animation runs to
  its end and arms its completion timer, whose callback captured the report; the logo is
  clicked before the 800 ms have passed, which clears the report and leaves the timer
  armed; the state is \<open>IDLE\<close> with an empty report slot. Then the timer fires: the
  callback finds its captured report truthy and the state is \<open>REPORT_READY\<close> with the
  report slot still \<open>null\<close>.
\<close>

theorem stale_completion_after_reset:
  "run [NavButton UrlMode, UrlChange ''http://example.com'', StartScan,
       Settled (Inr minimal_report),
       StepTimeout, StepTimeout, StepTimeout, StepTimeout, StepTimeout, StepTimeout,
       Reset] =
     \<lparr>app = \<lparr>appState = IDLE, inputMode = UrlMode, file = None,
             urlInput = [], report = Null, error = None\<rparr>,
      submitted = [Url ''http://example.com''], pending = 0, currentStepIndex = 0,
      timers = [minimal_report]\<rparr> \<and>
   run [NavButton UrlMode, UrlChange ''http://example.com'', StartScan,
       Settled (Inr minimal_report),
       StepTimeout, StepTimeout, StepTimeout, StepTimeout, StepTimeout, StepTimeout,
       Reset, CompleteTimeout 0] =
     \<lparr>app = \<lparr>appState = REPORT_READY, inputMode = UrlMode, file = None,
             urlInput = [], report = Null, error = None\<rparr>,
      submitted = [Url ''http://example.com''], pending = 0, currentStepIndex = 0,
      timers = []\<rparr>"
proof -
  let ?w = "run [NavButton UrlMode, UrlChange ''http://example.com'', StartScan]"
  let ?w2 = "foldl fire (fire ?w (Settled (Inr minimal_report)))
      [StepTimeout, StepTimeout, StepTimeout, StepTimeout, StepTimeout, StepTimeout]"
  have split: "run [NavButton UrlMode, UrlChange ''http://example.com'', StartScan,
       Settled (Inr minimal_report),
       StepTimeout, StepTimeout, StepTimeout, StepTimeout, StepTimeout, StepTimeout,
       Reset] = fire ?w2 Reset"
    "run [NavButton UrlMode, UrlChange ''http://example.com'', StartScan,
       Settled (Inr minimal_report),
       StepTimeout, StepTimeout, StepTimeout, StepTimeout, StepTimeout, StepTimeout,
       Reset, CompleteTimeout 0] = fire (fire ?w2 Reset) (CompleteTimeout 0)"
    by (simp_all only: run_def foldl.simps)
  have a: "fire ?w2 Reset =
     \<lparr>app = \<lparr>appState = IDLE, inputMode = UrlMode, file = None,
             urlInput = [], report = Null, error = None\<rparr>,
      submitted = [Url ''http://example.com''], pending = 0, currentStepIndex = 0,
      timers = [minimal_report]\<rparr>"
    unfolding animation_ended by (simp add: after_update_def resetApp_def)
  show ?thesis
    unfolding split a
    by (simp add: after_update_def onScanComplete_def without_def minimal_report_object)
qed

end
